theory Spec2Isabelle
  imports Main
begin

section \<open>The Observer pattern of the trucking demo (index.js / index.ts)\<close>

text \<open>
  The subject is the class \<open>Driver\<close>; its listeners are objects of the classes
  \<open>IDriverObserver\<close> (the base class of index.js, whose \<open>Update\<close> throws),
  \<open>DriverManager\<close> and \<open>DispatchTeam\<close>. The array \<open>listOfObservers\<close> holds
  object references, and \<open>indexOf\<close> compares them with \<open>===\<close>, that is by identity:
  a reference is an address, and a store maps every address to the object living there.
  Two objects of equal content at different addresses are different listeners.
\<close>

type_synonym ref = nat

datatype observer = IDriverObserver | DriverManager string | DispatchTeam

type_synonym heap = "ref \<rightharpoonup> observer"

record Driver =
  name :: string
  status :: string
  listOfObservers :: "ref list"

text \<open>
  What a thrown value can be: the \<open>Error\<close> of the base class, with its message, and the
  \<open>TypeError\<close> that JavaScript raises for \<open>observer.Update(this)\<close> when the registered
  value has no \<open>Update\<close> method (here: an address with no observer object).
\<close>

datatype error = Error string | TypeError

text \<open>
  Everything observable that the program does, in order: a line given to \<open>console.log\<close>,
  a prompt given to \<open>rl.question\<close>, the call \<open>rl.close()\<close>, and the call of a listener's
  \<open>Update\<close> method, recorded with the listener and the subject it was handed.
\<close>

datatype event =
  ConsoleLog string
| Question string
| RlClose
| UpdateCall ref Driver

subsection \<open>The subject\<close>

definition new_Driver :: "string \<Rightarrow> Driver" where
  "new_Driver n = \<lparr>name = n, status = ''Available'', listOfObservers = []\<rparr>"

definition Add :: "Driver \<Rightarrow> ref \<Rightarrow> Driver" where
  "Add d observer = d\<lparr>listOfObservers := listOfObservers d @ [observer]\<rparr>"

text \<open>\<open>Array.prototype.indexOf\<close>: the first index holding the value, \<open>-1\<close> when none does.\<close>

fun indexOf_from :: "ref list \<Rightarrow> ref \<Rightarrow> int \<Rightarrow> int" where
  "indexOf_from [] x k = -1"
| "indexOf_from (y # ys) x k = (if y = x then k else indexOf_from ys x (k + 1))"

definition indexOf :: "ref list \<Rightarrow> ref \<Rightarrow> int" where
  "indexOf xs x = indexOf_from xs x 0"

text \<open>\<open>splice(index, 1)\<close> for an index that is not negative.\<close>

definition splice :: "ref list \<Rightarrow> int \<Rightarrow> ref list" where
  "splice xs index = take (nat index) xs @ drop (nat index + 1) xs"

definition Remove :: "Driver \<Rightarrow> ref \<Rightarrow> Driver" where
  "Remove d observer =
     (let index = indexOf (listOfObservers d) observer
      in if index > -1 then d\<lparr>listOfObservers := splice (listOfObservers d) index\<rparr> else d)"

subsection \<open>The listeners\<close>

text \<open>
  The two pictographs that open the listeners' lines are written as their UTF-8 bytes.
  A handler returns the lines it logs, or the error it throws. No handler of the
  repository writes to the subject.
\<close>

definition clipboard :: string where
  "clipboard = [CHR 0xF0, CHR 0x9F, CHR 0x93, CHR 0x8B]"

definition antenna :: string where
  "antenna = [CHR 0xF0, CHR 0x9F, CHR 0x93, CHR 0xA1]"

fun Update :: "observer \<Rightarrow> Driver \<Rightarrow> error + string list" where
  "Update IDriverObserver driver = Inl (Error ''Update method must be implemented'')"
| "Update (DriverManager n) driver =
     Inr [clipboard @ '' Driver Manager '' @ n @ '': {'' @ name driver @ ''} is now {''
            @ status driver @ ''}'']"
| "Update DispatchTeam driver =
     Inr [antenna @ '' Dispatch notified: {'' @ name driver @ ''} status changed to {''
            @ status driver @ ''}'']"

text \<open>The call \<open>observer.Update(this)\<close> on the value stored at an address.\<close>

definition call_Update :: "heap \<Rightarrow> ref \<Rightarrow> Driver \<Rightarrow> error + string list" where
  "call_Update h r d = (case h r of None \<Rightarrow> Inl TypeError | Some ob \<Rightarrow> Update ob d)"

text \<open>
  The \<open>for ... of\<close> loop of \<open>Notify\<close>: the events so far, and the error that left the loop,
  if one did. A throwing handler was called, so its call is recorded; a value with no
  \<open>Update\<close> method is never called.
\<close>

fun notify_loop :: "heap \<Rightarrow> Driver \<Rightarrow> ref list \<Rightarrow> event list \<times> error option" where
  "notify_loop h d [] = ([], None)"
| "notify_loop h d (r # rs) =
     (case h r of
        None \<Rightarrow> ([], Some TypeError)
      | Some ob \<Rightarrow>
          (case Update ob d of
             Inl e \<Rightarrow> ([UpdateCall r d], Some e)
           | Inr ls \<Rightarrow>
               (let (evs, res) = notify_loop h d rs
                in (UpdateCall r d # map ConsoleLog ls @ evs, res))))"

definition Notify :: "heap \<Rightarrow> Driver \<Rightarrow> event list \<times> error option" where
  "Notify h d =
     (let (evs, res) = notify_loop h d (listOfObservers d)
      in (ConsoleLog ''UPDATE: Status has been changed.'' # ConsoleLog ''Notify Observers:'' # evs,
          res))"

text \<open>
  \<open>ChangeStatus\<close> assigns, then notifies: the subject after the call, the events of the
  call, and the error that left it, if one did.
\<close>

definition ChangeStatus :: "heap \<Rightarrow> Driver \<Rightarrow> string \<Rightarrow> Driver \<times> event list \<times> error option" where
  "ChangeStatus h d newStatus =
     (let d' = d\<lparr>status := newStatus\<rparr>; (evs, res) = Notify h d'
      in (d', evs, res))"

text \<open>The calls of \<open>Update\<close> in a trace, with their arguments, in order.\<close>

fun calls :: "event list \<Rightarrow> (ref \<times> Driver) list" where
  "calls [] = []"
| "calls (UpdateCall r d # evs) = (r, d) # calls evs"
| "calls (ev # evs) = calls evs"

subsection \<open>The interactive loop\<close>

text \<open>
  \<open>String.prototype.toLowerCase\<close>, on strings of bytes: the letters \<open>A\<close> to \<open>Z\<close> move to
  \<open>a\<close> to \<open>z\<close>, every other byte stays. The program only compares the result with the
  words \<open>yes\<close>, \<open>y\<close>, \<open>no\<close> and \<open>n\<close>, and no character outside \<open>A\<close> to \<open>Z\<close> is lowered by
  JavaScript to one of the letters of these words, so the comparisons come out the same.
\<close>

definition toLowerCase_char :: "char \<Rightarrow> char" where
  "toLowerCase_char c =
     (let n = (of_char c :: nat) in if 65 \<le> n \<and> n \<le> 90 then char_of (n + 32) else c)"

definition toLowerCase :: "string \<Rightarrow> string" where
  "toLowerCase s = map toLowerCase_char s"

definition statuses :: "string list" where
  "statuses = [''Available'', ''En Route'', ''Stopped'', ''Delivered'']"

text \<open>\<open>Array.prototype.join\<close> with a separator.\<close>

fun join :: "string list \<Rightarrow> string \<Rightarrow> string" where
  "join [] sep = []"
| "join [x] sep = x"
| "join (x # y # ys) sep = x @ sep @ join (y # ys) sep"

text \<open>
  The list of statuses shown in the second question. \<open>slice(0, -1)\<close> drops the last
  element; reading the last element of an empty array gives \<open>undefined\<close>, which the
  concatenation prints as that word.
\<close>

definition statusList :: "string list \<Rightarrow> string" where
  "statusList availableStatuses =
     (if length availableStatuses = 1 then availableStatuses ! 0
      else join (take (length availableStatuses - 1) availableStatuses) '', '' @ '', or '' @
           (if availableStatuses = [] then ''undefined''
            else availableStatuses ! (length availableStatuses - 1)))"

text \<open>
  The program waits in one of two callbacks of \<open>rl.question\<close>: for the answer of the
  first question, or for the new status, and this second callback holds the array
  \<open>availableStatuses\<close> computed when the first one ran. After \<open>rl.close()\<close> no line is read
  any more; an error thrown inside a callback is caught by nothing and ends the process.
\<close>

datatype mode =
  AwaitingContinue
| AwaitingNewStatus "string list"
| Closed
| Uncaught error

record program =
  driver :: Driver
  mode :: mode

definition newline :: string where
  "newline = [CHR 0x0A]"

definition askForStatusChange :: "program \<Rightarrow> program \<times> event list" where
  "askForStatusChange p =
     (p\<lparr>mode := AwaitingContinue\<rparr>,
      [ConsoleLog (''------ Current driver status: '' @ status (driver p) @ '' ------ '' @ newline),
       Question ''Question: Has the driver status changed? (yes/no): ''])"

text \<open>The callback of the second question.\<close>

definition onNewStatus :: "heap \<Rightarrow> string list \<Rightarrow> program \<Rightarrow> string \<Rightarrow> program \<times> event list" where
  "onNewStatus h availableStatuses p newStatus =
     (if newStatus \<in> set availableStatuses then
        (case ChangeStatus h (driver p) newStatus of
           (d', evs, Some e) \<Rightarrow> (p\<lparr>driver := d', mode := Uncaught e\<rparr>, ConsoleLog [] # evs)
         | (d', evs, None) \<Rightarrow>
             (let (p', evs') = askForStatusChange (p\<lparr>driver := d'\<rparr>)
              in (p', ConsoleLog [] # evs @ ConsoleLog [] # evs')))
      else
        (let (p', evs') = askForStatusChange p
         in (p', ConsoleLog (''Invalid status. Please try again.'' @ newline) # evs')))"

text \<open>The callback of the first question.\<close>

definition onAnswer :: "program \<Rightarrow> string \<Rightarrow> program \<times> event list" where
  "onAnswer p answer =
     (if toLowerCase answer = ''yes'' \<or> toLowerCase answer = ''y'' then
        (let availableStatuses = filter (\<lambda>s. s \<noteq> status (driver p)) statuses
         in (p\<lparr>mode := AwaitingNewStatus availableStatuses\<rparr>,
             [ConsoleLog (newline @ ''Question: What is the new status? ('' @
                          statusList availableStatuses @ '')''),
              Question ''Enter new status: '']))
      else if toLowerCase answer = ''no'' \<or> toLowerCase answer = ''n'' then
        (p\<lparr>mode := Closed\<rparr>,
         [ConsoleLog (newline @ ''Thank you for confirming this driver's status. Goodbye. '' @ newline),
          RlClose])
      else
        (let (p', evs') = askForStatusChange p
         in (p', ConsoleLog (''Please answer yes or no.'' @ newline) # evs')))"

text \<open>One line of input reaches the callback that is waiting, if one is.\<close>

definition step :: "heap \<Rightarrow> program \<Rightarrow> string \<Rightarrow> program \<times> event list" where
  "step h p line =
     (case mode p of
        AwaitingContinue \<Rightarrow> onAnswer p line
      | AwaitingNewStatus availableStatuses \<Rightarrow> onNewStatus h availableStatuses p line
      | Closed \<Rightarrow> (p, [])
      | Uncaught e \<Rightarrow> (p, []))"

text \<open>The lines of the input, one after the other; the input ends with the list.\<close>

fun run :: "heap \<Rightarrow> program \<Rightarrow> string list \<Rightarrow> program \<times> event list" where
  "run h p [] = (p, [])"
| "run h p (line # lines) =
     (let (p', evs) = step h p line; (p'', evs') = run h p' lines
      in (p'', evs @ evs'))"

text \<open>
  The top level of the script: the three observers at their addresses, the driver, the
  three registrations and the first call of \<open>askForStatusChange\<close>.
\<close>

definition manager :: ref where "manager = 0"
definition manager2 :: ref where "manager2 = 1"
definition dispatch :: ref where "dispatch = 2"

definition demo_heap :: heap where
  "demo_heap = [manager \<mapsto> DriverManager ''Rebecca'', manager2 \<mapsto> DriverManager ''Higgins'',
                dispatch \<mapsto> DispatchTeam]"

definition main :: "program \<times> event list" where
  "main =
     (let d0 = new_Driver ''Ted Lasso'';
          d1 = Add d0 manager;
          d2 = Add d1 manager2;
          d3 = Add d2 dispatch;
          (p, evs) = askForStatusChange \<lparr>driver = d3, mode = AwaitingContinue\<rparr>
      in (p,
          [ConsoleLog (newline @ ''================ Observer Pattern Demo: Trucking Company ================'' @ newline),
           ConsoleLog (''- Created driver: '' @ name d0 @ newline),
           ConsoleLog (''- Created observers: DriverManager and DispatchTeam '' @ newline),
           ConsoleLog (''- Observers added to driver '' @ newline)] @ evs))"


section \<open>Auxiliary facts\<close>

subsection \<open>The subject\<close>

lemma calls_append: "calls (xs @ ys) = calls xs @ calls ys"
  by (induction xs rule: calls.induct) simp_all

lemma calls_ConsoleLog: "calls (map ConsoleLog ls) = []"
  by (induction ls) simp_all

lemma call_Update_returns:
  "call_Update h r d = Inr ls \<Longrightarrow> \<exists>ob. h r = Some ob \<and> Update ob d = Inr ls"
  by (auto simp: call_Update_def split: option.splits)

lemma notify_loop_all_return:
  "\<forall>r\<in>set rs. \<exists>ls. call_Update h r d = Inr ls \<Longrightarrow>
   snd (notify_loop h d rs) = None \<and> calls (fst (notify_loop h d rs)) = map (\<lambda>r. (r, d)) rs"
proof (induction rs)
  case Nil
  show ?case by simp
next
  case (Cons r rs)
  from Cons.prems obtain ls where "call_Update h r d = Inr ls" by auto
  then obtain ob where ob: "h r = Some ob" "Update ob d = Inr ls"
    by (auto dest: call_Update_returns)
  from Cons have IH: "snd (notify_loop h d rs) = None"
    "calls (fst (notify_loop h d rs)) = map (\<lambda>r. (r, d)) rs" by auto
  show ?case using ob IH
    by (simp add: split_beta calls_append calls_ConsoleLog)
qed

lemma notify_loop_prefix:
  "\<exists>n\<le>length rs. calls (fst (notify_loop h d rs)) = map (\<lambda>r. (r, d)) (take n rs)"
proof (induction rs)
  case Nil
  show ?case by simp
next
  case (Cons r rs)
  then obtain n where n: "n \<le> length rs"
    "calls (fst (notify_loop h d rs)) = map (\<lambda>r. (r, d)) (take n rs)" by auto
  show ?case
  proof (cases "h r")
    case None
    then show ?thesis by (intro exI[of _ 0]) simp
  next
    case (Some ob)
    show ?thesis
    proof (cases "Update ob d")
      case (Inl e)
      with Some show ?thesis by (intro exI[of _ 1]) simp
    next
      case (Inr ls)
      with Some n show ?thesis
        by (intro exI[of _ "Suc n"]) (simp add: split_beta calls_append calls_ConsoleLog)
    qed
  qed
qed

lemma notify_loop_first_failure:
  "k < length rs \<Longrightarrow> h (rs ! k) = Some ob \<Longrightarrow> Update ob d = Inl e \<Longrightarrow>
   \<forall>j<k. \<exists>ls. call_Update h (rs ! j) d = Inr ls \<Longrightarrow>
   snd (notify_loop h d rs) = Some e \<and>
   calls (fst (notify_loop h d rs)) = map (\<lambda>r. (r, d)) (take (Suc k) rs)"
proof (induction rs arbitrary: k)
  case Nil
  then show ?case by simp
next
  case (Cons r rs)
  show ?case
  proof (cases k)
    case 0
    with Cons.prems show ?thesis by simp
  next
    case (Suc k')
    from Cons.prems(4) Suc obtain ls where "call_Update h r d = Inr ls" by fastforce
    then obtain ob' where ob': "h r = Some ob'" "Update ob' d = Inr ls"
      by (auto dest: call_Update_returns)
    have "\<forall>j<k'. \<exists>ls. call_Update h (rs ! j) d = Inr ls"
      using Cons.prems(4) Suc by fastforce
    with Cons.IH[of k'] Cons.prems Suc
    have "snd (notify_loop h d rs) = Some e \<and>
      calls (fst (notify_loop h d rs)) = map (\<lambda>r. (r, d)) (take (Suc k') rs)" by simp
    with ob' Suc show ?thesis
      by (simp add: split_beta calls_append calls_ConsoleLog)
  qed
qed

lemma notify_loop_some_failure:
  "k < length rs \<Longrightarrow> h (rs ! k) = Some ob \<Longrightarrow> Update ob d = Inl e \<Longrightarrow>
   \<exists>e' n. snd (notify_loop h d rs) = Some e' \<and> n \<le> Suc k \<and>
     calls (fst (notify_loop h d rs)) = map (\<lambda>r. (r, d)) (take n rs)"
proof (induction rs arbitrary: k)
  case Nil
  then show ?case by simp
next
  case (Cons r rs)
  show ?case
  proof (cases "h r")
    case None
    then show ?thesis by (intro exI[of _ TypeError] exI[of _ 0]) simp
  next
    case (Some ob')
    show ?thesis
    proof (cases "Update ob' d")
      case (Inl e')
      with Some show ?thesis by (intro exI[of _ e'] exI[of _ 1]) simp
    next
      case (Inr ls)
      with Some Cons.prems obtain k' where k': "k = Suc k'" by (cases k) auto
      with Cons.IH[of k'] Cons.prems obtain e' n where
        "snd (notify_loop h d rs) = Some e'" "n \<le> Suc k'"
        "calls (fst (notify_loop h d rs)) = map (\<lambda>r. (r, d)) (take n rs)" by auto
      with Some Inr k' show ?thesis
        by (intro exI[of _ e'] exI[of _ "Suc n"])
           (simp add: split_beta calls_append calls_ConsoleLog)
    qed
  qed
qed

lemma Notify_calls: "calls (fst (Notify h d)) = calls (fst (notify_loop h d (listOfObservers d)))"
  by (simp add: Notify_def split_beta)

lemma Notify_result: "snd (Notify h d) = snd (notify_loop h d (listOfObservers d))"
  by (simp add: Notify_def split_beta)

lemma notify_loop_first_error:
  "k < length rs \<Longrightarrow> call_Update h (rs ! k) d = Inl e \<Longrightarrow>
   \<forall>j<k. \<exists>ls. call_Update h (rs ! j) d = Inr ls \<Longrightarrow>
   snd (notify_loop h d rs) = Some e \<and>
   calls (fst (notify_loop h d rs)) =
     map (\<lambda>r. (r, d)) (take (if h (rs ! k) = None then k else Suc k) rs)"
proof (induction rs arbitrary: k)
  case Nil
  then show ?case by simp
next
  case (Cons r rs)
  show ?case
  proof (cases k)
    case 0
    with Cons.prems show ?thesis
      by (auto simp: call_Update_def split: option.splits)
  next
    case (Suc k')
    from Cons.prems(3) Suc obtain ls where "call_Update h r d = Inr ls" by fastforce
    then obtain ob' where ob': "h r = Some ob'" "Update ob' d = Inr ls"
      by (auto dest: call_Update_returns)
    have "\<forall>j<k'. \<exists>ls. call_Update h (rs ! j) d = Inr ls"
      using Cons.prems(3) Suc by fastforce
    with Cons.IH[of k'] Cons.prems Suc
    have "snd (notify_loop h d rs) = Some e \<and>
      calls (fst (notify_loop h d rs)) =
        map (\<lambda>r. (r, d)) (take (if h (rs ! k') = None then k' else Suc k') rs)" by simp
    with ob' Suc show ?thesis
      by (simp add: split_beta calls_append calls_ConsoleLog)
  qed
qed

lemma Notify_first_error:
  "\<forall>k<length (listOfObservers d). \<forall>e.
     (\<forall>j<k. \<exists>ls. call_Update h (listOfObservers d ! j) d = Inr ls) \<and>
     call_Update h (listOfObservers d ! k) d = Inl e \<longrightarrow>
     snd (Notify h d) = Some e \<and>
     calls (fst (Notify h d)) =
       map (\<lambda>r. (r, d))
         (take (if h (listOfObservers d ! k) = None then k else Suc k) (listOfObservers d))"
  using notify_loop_first_error[of _ "listOfObservers d" h d]
  by (simp add: Notify_calls Notify_result)

lemma foldl_Add: "listOfObservers (foldl Add d rs) = listOfObservers d @ rs"
  by (induction rs arbitrary: d) (simp_all add: Add_def)

lemma indexOf_from_absent: "x \<notin> set xs \<Longrightarrow> indexOf_from xs x k = -1"
  by (induction xs arbitrary: k) auto

lemma indexOf_from_first:
  "x \<notin> set pre \<Longrightarrow> indexOf_from (pre @ x # post) x k = k + int (length pre)"
  by (induction pre arbitrary: k) auto

lemma Remove_first:
  "listOfObservers d = pre @ x # post \<Longrightarrow> x \<notin> set pre \<Longrightarrow>
   listOfObservers (Remove d x) = pre @ post"
  by (simp add: Remove_def indexOf_def indexOf_from_first splice_def)

lemma Remove_absent: "x \<notin> set (listOfObservers d) \<Longrightarrow> Remove d x = d"
  by (simp add: Remove_def indexOf_def indexOf_from_absent)

lemma Remove_list: "listOfObservers (Remove d x) = remove1 x (listOfObservers d)"
proof (cases "x \<in> set (listOfObservers d)")
  case False
  then show ?thesis by (simp add: Remove_absent remove1_idem)
next
  case True
  then obtain pre post where sp: "listOfObservers d = pre @ x # post" "x \<notin> set pre"
    by (auto dest: split_list_first)
  then show ?thesis by (simp add: Remove_first remove1_append)
qed

lemma Remove_frame: "name (Remove d x) = name d \<and> status (Remove d x) = status d"
  by (simp add: Remove_def Let_def)

lemma Remove_twice:
  assumes "count_list (listOfObservers d) x = 1"
  shows "Remove (Remove d x) x = Remove d x"
proof -
  from assms have "x \<in> set (listOfObservers d)"
    by (metis count_list_0_iff zero_neq_one)
  then obtain pre post where sp: "listOfObservers d = pre @ x # post" "x \<notin> set pre"
    by (auto dest: split_list_first)
  with assms have "x \<notin> set post"
    by (simp add: count_list_0_iff)
  with sp have "x \<notin> set (listOfObservers (Remove d x))"
    by (simp add: Remove_first)
  then show ?thesis by (rule Remove_absent)
qed

lemma Update_line_not_header:
  "Update ob d = Inr ls \<Longrightarrow> ''UPDATE: Status has been changed.'' \<notin> set ls"
  by (cases ob) (auto simp: clipboard_def antenna_def)

lemma notify_loop_no_header:
  "ConsoleLog ''UPDATE: Status has been changed.'' \<notin> set (fst (notify_loop h d rs))"
proof (induction rs)
  case Nil
  show ?case by simp
next
  case (Cons r rs)
  show ?case
  proof (cases "h r")
    case None
    then show ?thesis by simp
  next
    case (Some ob)
    show ?thesis
    proof (cases "Update ob d")
      case (Inl e)
      with Some show ?thesis by simp
    next
      case (Inr ls)
      with Some Cons Update_line_not_header[OF Inr] show ?thesis
        by (auto simp: split_beta)
    qed
  qed
qed

lemma Notify_one_header:
  "length (filter (\<lambda>ev. ev = ConsoleLog ''UPDATE: Status has been changed.'') (fst (Notify h d))) = 1"
proof -
  have "filter (\<lambda>ev. ev = ConsoleLog ''UPDATE: Status has been changed.'')
          (fst (notify_loop h d (listOfObservers d))) = []"
    using notify_loop_no_header[of h d "listOfObservers d"] by (auto simp: filter_empty_conv)
  then show ?thesis by (simp add: Notify_def split_beta)
qed

lemma ChangeStatus_driver: "fst (ChangeStatus h d s) = d\<lparr>status := s\<rparr>"
  by (simp add: ChangeStatus_def Let_def split_beta)

lemma ChangeStatus_Notify: "snd (ChangeStatus h d s) = Notify h (d\<lparr>status := s\<rparr>)"
  by (simp add: ChangeStatus_def Let_def split_beta)

subsection \<open>The loop\<close>








lemma main_driver:
  "driver (fst main) = \<lparr>name = ''Ted Lasso'', status = ''Available'', listOfObservers = [0, 1, 2]\<rparr>"
  by (simp add: main_def askForStatusChange_def Add_def new_Driver_def manager_def manager2_def
      dispatch_def)

lemma main_mode: "mode (fst main) = AwaitingContinue"
  by (simp add: main_def askForStatusChange_def Let_def)



lemma run_Closed: "mode p = Closed \<Longrightarrow> run h p ls = (p, [])"
  by (induction ls) (simp_all add: step_def)

text \<open>
  What \<open>toLowerCase\<close> does to the four words of the first question: a letter is lowered
  to a given small letter exactly when it is that letter or its capital, so the answers
  that lower to one of the words are its spellings in small and capital letters.
\<close>

lemma toLowerCase_char_letter:
  assumes "97 \<le> (of_char l :: nat)" "(of_char l :: nat) \<le> 122"
  shows "toLowerCase_char c = l \<longleftrightarrow> c = l \<or> c = char_of ((of_char l :: nat) - 32)"
proof -
  show ?thesis
  proof (cases "65 \<le> (of_char c :: nat) \<and> (of_char c :: nat) \<le> 90")
    case True
    then have low: "toLowerCase_char c = char_of ((of_char c :: nat) + 32)"
      by (simp add: toLowerCase_char_def)
    have "char_of ((of_char c :: nat) + 32) = l \<longleftrightarrow> (of_char c :: nat) + 32 = of_char l"
    proof
      assume "char_of ((of_char c :: nat) + 32) = l"
      then have "(of_char (char_of ((of_char c :: nat) + 32) :: char) :: nat) = of_char l" by simp
      with True show "(of_char c :: nat) + 32 = of_char l" by (simp add: of_char_of)
    next
      assume "(of_char c :: nat) + 32 = of_char l"
      then show "char_of ((of_char c :: nat) + 32) = l" by simp
    qed
    moreover have "(of_char c :: nat) + 32 = of_char l \<longleftrightarrow> c = char_of ((of_char l :: nat) - 32)"
    proof
      assume "(of_char c :: nat) + 32 = of_char l"
      then have "(of_char c :: nat) = of_char l - 32" by simp
      then show "c = char_of ((of_char l :: nat) - 32)" by (metis char_of_char)
    next
      assume "c = char_of ((of_char l :: nat) - 32)"
      then have "(of_char c :: nat) = (of_char l - 32) mod 256" by (simp add: of_char_of)
      with assms show "(of_char c :: nat) + 32 = of_char l" by simp
    qed
    moreover have "c \<noteq> l" using True assms by auto
    ultimately show ?thesis using low by simp
  next
    case False
    then have same: "toLowerCase_char c = c" by (auto simp: toLowerCase_char_def)
    have "c \<noteq> char_of ((of_char l :: nat) - 32)"
    proof
      assume "c = char_of ((of_char l :: nat) - 32)"
      then have "(of_char c :: nat) = (of_char l - 32) mod 256" by (simp add: of_char_of)
      with assms have "(of_char c :: nat) = of_char l - 32" by simp
      with assms False show False by auto
    qed
    with same show ?thesis by auto
  qed
qed

lemma upper_codes:
  "char_of (89::nat) = CHR ''Y''" "char_of (69::nat) = CHR ''E''" "char_of (83::nat) = CHR ''S''"
  "char_of (78::nat) = CHR ''N''" "char_of (79::nat) = CHR ''O''"
  by code_simp+

lemma toLowerCase_char_y: "toLowerCase_char c = CHR ''y'' \<longleftrightarrow> c = CHR ''y'' \<or> c = CHR ''Y''"
  using toLowerCase_char_letter[of "CHR ''y''" c] by (simp add: upper_codes)

lemma toLowerCase_char_e: "toLowerCase_char c = CHR ''e'' \<longleftrightarrow> c = CHR ''e'' \<or> c = CHR ''E''"
  using toLowerCase_char_letter[of "CHR ''e''" c] by (simp add: upper_codes)

lemma toLowerCase_char_s: "toLowerCase_char c = CHR ''s'' \<longleftrightarrow> c = CHR ''s'' \<or> c = CHR ''S''"
  using toLowerCase_char_letter[of "CHR ''s''" c] by (simp add: upper_codes)

lemma toLowerCase_char_n: "toLowerCase_char c = CHR ''n'' \<longleftrightarrow> c = CHR ''n'' \<or> c = CHR ''N''"
  using toLowerCase_char_letter[of "CHR ''n''" c] by (simp add: upper_codes)

lemma toLowerCase_char_o: "toLowerCase_char c = CHR ''o'' \<longleftrightarrow> c = CHR ''o'' \<or> c = CHR ''O''"
  using toLowerCase_char_letter[of "CHR ''o''" c] by (simp add: upper_codes)

lemma toLowerCase_Nil: "toLowerCase a = [] \<longleftrightarrow> a = []"
  by (simp add: toLowerCase_def)

lemma toLowerCase_Cons:
  "toLowerCase a = l # ls \<longleftrightarrow>
   (\<exists>c cs. a = c # cs \<and> toLowerCase_char c = l \<and> toLowerCase cs = ls)"
  by (cases a) (auto simp: toLowerCase_def)

lemma toLowerCase_y: "toLowerCase a = ''y'' \<longleftrightarrow> a = ''y'' \<or> a = ''Y''"
  unfolding toLowerCase_Cons[of a "CHR ''y''" "[]"] toLowerCase_Nil toLowerCase_char_y by blast

lemma toLowerCase_n: "toLowerCase a = ''n'' \<longleftrightarrow> a = ''n'' \<or> a = ''N''"
  unfolding toLowerCase_Cons[of a "CHR ''n''" "[]"] toLowerCase_Nil toLowerCase_char_n by blast

lemma toLowerCase_o: "toLowerCase a = ''o'' \<longleftrightarrow> a = ''o'' \<or> a = ''O''"
  unfolding toLowerCase_Cons[of a "CHR ''o''" "[]"] toLowerCase_Nil toLowerCase_char_o by blast

lemma toLowerCase_s: "toLowerCase a = ''s'' \<longleftrightarrow> a = ''s'' \<or> a = ''S''"
  unfolding toLowerCase_Cons[of a "CHR ''s''" "[]"] toLowerCase_Nil toLowerCase_char_s by blast

lemma toLowerCase_es:
  "toLowerCase a = ''es'' \<longleftrightarrow> a = ''es'' \<or> a = ''eS'' \<or> a = ''Es'' \<or> a = ''ES''"
  unfolding toLowerCase_Cons[of a "CHR ''e''" "''s''"] toLowerCase_s toLowerCase_char_e by blast

lemma toLowerCase_no:
  "toLowerCase a = ''no'' \<longleftrightarrow> a = ''no'' \<or> a = ''nO'' \<or> a = ''No'' \<or> a = ''NO''"
  unfolding toLowerCase_Cons[of a "CHR ''n''" "''o''"] toLowerCase_o toLowerCase_char_n by blast

lemma toLowerCase_yes:
  "toLowerCase a = ''yes'' \<longleftrightarrow>
   a = ''yes'' \<or> a = ''yeS'' \<or> a = ''yEs'' \<or> a = ''yES'' \<or>
   a = ''Yes'' \<or> a = ''YeS'' \<or> a = ''YEs'' \<or> a = ''YES''"
  unfolding toLowerCase_Cons[of a "CHR ''y''" "''es''"] toLowerCase_es toLowerCase_char_y by blast

lemma lower_YES: "toLowerCase ''YES'' = ''yes''"
  by code_simp

lemma lower_No: "toLowerCase ''No'' = ''no''"
  by code_simp

lemma lower_no: "toLowerCase ''no'' = ''no''"
  by code_simp

lemma lower_N: "toLowerCase ''N'' = ''n''"
  by code_simp

lemma lower_maybe: "toLowerCase ''Maybe'' = ''maybe''"
  by code_simp

lemma onNewStatus_invalid:
  "s \<notin> set av \<Longrightarrow>
   onNewStatus h av p s =
     (p\<lparr>mode := AwaitingContinue\<rparr>,
      [ConsoleLog (''Invalid status. Please try again.'' @ newline),
       ConsoleLog (''------ Current driver status: '' @ status (driver p) @ '' ------ '' @ newline),
       Question ''Question: Has the driver status changed? (yes/no): ''])"
  by (simp add: onNewStatus_def askForStatusChange_def)

section \<open>The claims\<close>

text \<open>
  Claim C1, as the code has it. After any sequence of \<open>Add\<close> calls the collection is the
  old one followed by the registered listeners in the order of the calls. \<open>Notify\<close> calls
  the handlers along the collection, from its first element on, without skipping or
  repeating a position, and hands each one the subject itself. When no handler of the
  collection raises, \<open>Notify\<close> returns and the calls are exactly the collection: every
  entry is called once, in registration order. When the call at some position is the
  first to fail, its error leaves \<open>Notify\<close> and the calls are exactly those of the
  positions up to this one, this one included when it has a handler that was called
  and raised, and none behind it.
\<close>
theorem Notify_registration_order:
  "listOfObservers (foldl Add d rs) = listOfObservers d @ rs \<and>
   (\<exists>n\<le>length (listOfObservers d @ rs).
      calls (fst (Notify h (foldl Add d rs))) =
        map (\<lambda>r. (r, foldl Add d rs)) (take n (listOfObservers d @ rs))) \<and>
   ((\<forall>r\<in>set (listOfObservers d @ rs). \<exists>ls. call_Update h r (foldl Add d rs) = Inr ls) \<longrightarrow>
      snd (Notify h (foldl Add d rs)) = None \<and>
      calls (fst (Notify h (foldl Add d rs))) =
        map (\<lambda>r. (r, foldl Add d rs)) (listOfObservers d @ rs)) \<and>
   (\<forall>k<length (listOfObservers d @ rs). \<forall>e.
      (\<forall>j<k. \<exists>ls. call_Update h ((listOfObservers d @ rs) ! j) (foldl Add d rs) = Inr ls) \<and>
      call_Update h ((listOfObservers d @ rs) ! k) (foldl Add d rs) = Inl e \<longrightarrow>
      snd (Notify h (foldl Add d rs)) = Some e \<and>
      calls (fst (Notify h (foldl Add d rs))) =
        map (\<lambda>r. (r, foldl Add d rs))
          (take (if h ((listOfObservers d @ rs) ! k) = None then k else Suc k)
             (listOfObservers d @ rs)))"
proof -
  let ?D = "foldl Add d rs"
  have l: "listOfObservers ?D = listOfObservers d @ rs" by (rule foldl_Add)
  have 1: "\<exists>n\<le>length (listOfObservers d @ rs).
      calls (fst (Notify h ?D)) = map (\<lambda>r. (r, ?D)) (take n (listOfObservers d @ rs))"
    using notify_loop_prefix[of "listOfObservers ?D" h ?D] by (simp add: l Notify_calls)
  have 2: "(\<forall>r\<in>set (listOfObservers d @ rs). \<exists>ls. call_Update h r ?D = Inr ls) \<longrightarrow>
      snd (Notify h ?D) = None \<and>
      calls (fst (Notify h ?D)) = map (\<lambda>r. (r, ?D)) (listOfObservers d @ rs)"
    using notify_loop_all_return[of "listOfObservers ?D" h ?D]
    by (simp add: l Notify_calls Notify_result)
  have 3: "\<forall>k<length (listOfObservers d @ rs). \<forall>e.
      (\<forall>j<k. \<exists>ls. call_Update h ((listOfObservers d @ rs) ! j) ?D = Inr ls) \<and>
      call_Update h ((listOfObservers d @ rs) ! k) ?D = Inl e \<longrightarrow>
      snd (Notify h ?D) = Some e \<and>
      calls (fst (Notify h ?D)) =
        map (\<lambda>r. (r, ?D))
          (take (if h ((listOfObservers d @ rs) ! k) = None then k else Suc k)
             (listOfObservers d @ rs))"
    using Notify_first_error[of ?D h] unfolding l .
  from l 1 2 3 show ?thesis by (intro conjI)
qed

theorem Notify_registration_order_witness:
  "listOfObservers (foldl Add (new_Driver ''Ted Lasso'') [0, 1, 2]) = [0, 1, 2] \<and>
   snd (Notify demo_heap (foldl Add (new_Driver ''Ted Lasso'') [0, 1, 2])) = None \<and>
   calls (fst (Notify demo_heap (foldl Add (new_Driver ''Ted Lasso'') [0, 1, 2]))) =
     [(0, \<lparr>name = ''Ted Lasso'', status = ''Available'', listOfObservers = [0, 1, 2]\<rparr>),
      (1, \<lparr>name = ''Ted Lasso'', status = ''Available'', listOfObservers = [0, 1, 2]\<rparr>),
      (2, \<lparr>name = ''Ted Lasso'', status = ''Available'', listOfObservers = [0, 1, 2]\<rparr>)] \<and>
   snd (Notify [0 \<mapsto> DispatchTeam, 1 \<mapsto> IDriverObserver, 2 \<mapsto> DriverManager ''Higgins'']
          (foldl Add (new_Driver ''Ted Lasso'') [0, 1, 2])) =
     Some (Error ''Update method must be implemented'') \<and>
   calls (fst (Notify [0 \<mapsto> DispatchTeam, 1 \<mapsto> IDriverObserver, 2 \<mapsto> DriverManager ''Higgins'']
          (foldl Add (new_Driver ''Ted Lasso'') [0, 1, 2]))) =
     [(0, \<lparr>name = ''Ted Lasso'', status = ''Available'', listOfObservers = [0, 1, 2]\<rparr>),
      (1, \<lparr>name = ''Ted Lasso'', status = ''Available'', listOfObservers = [0, 1, 2]\<rparr>)]"
proof -
  let ?d = "new_Driver ''Ted Lasso''"
  let ?D = "foldl Add ?d [0, 1, 2]"
  let ?g = "[0 \<mapsto> DispatchTeam, 1 \<mapsto> IDriverObserver, 2 \<mapsto> DriverManager ''Higgins'']"
  let ?e = "Error ''Update method must be implemented''"
  have D: "?D = \<lparr>name = ''Ted Lasso'', status = ''Available'', listOfObservers = [0, 1, 2]\<rparr>"
    by (simp add: Add_def new_Driver_def)
  have l: "listOfObservers ?d @ [0, 1, 2] = [0, 1, 2]"
    by (simp add: new_Driver_def)
  have ok: "\<forall>r\<in>set (listOfObservers ?d @ [0, 1, 2]). \<exists>ls. call_Update demo_heap r ?D = Inr ls"
    by (simp add: new_Driver_def call_Update_def demo_heap_def manager_def manager2_def
        dispatch_def)
  note t = Notify_registration_order[of ?d "[0, 1, 2]" demo_heap]
  from t have a: "listOfObservers ?D = listOfObservers ?d @ [0, 1, 2]"
    by (rule conjunct1)
  from t ok have b: "snd (Notify demo_heap ?D) = None \<and>
      calls (fst (Notify demo_heap ?D)) = map (\<lambda>r. (r, ?D)) (listOfObservers ?d @ [0, 1, 2])"
    by blast
  have k: "1 < length (listOfObservers ?d @ [0, 1, 2])"
    by (simp add: new_Driver_def)
  have before: "\<forall>j<1. \<exists>ls. call_Update ?g ((listOfObservers ?d @ [0, 1, 2]) ! j) ?D = Inr ls"
    by (simp add: new_Driver_def call_Update_def)
  have fails: "call_Update ?g ((listOfObservers ?d @ [0, 1, 2]) ! 1) ?D = Inl ?e"
    by (simp add: new_Driver_def call_Update_def)
  note u = Notify_registration_order[of ?d "[0, 1, 2]" ?g]
  from u have "\<forall>k<length (listOfObservers ?d @ [0, 1, 2]). \<forall>e.
      (\<forall>j<k. \<exists>ls. call_Update ?g ((listOfObservers ?d @ [0, 1, 2]) ! j) ?D = Inr ls) \<and>
      call_Update ?g ((listOfObservers ?d @ [0, 1, 2]) ! k) ?D = Inl e \<longrightarrow>
      snd (Notify ?g ?D) = Some e \<and>
      calls (fst (Notify ?g ?D)) =
        map (\<lambda>r. (r, ?D))
          (take (if ?g ((listOfObservers ?d @ [0, 1, 2]) ! k) = None then k else Suc k)
             (listOfObservers ?d @ [0, 1, 2]))"
    by blast
  with k before fails have c: "snd (Notify ?g ?D) = Some ?e \<and>
      calls (fst (Notify ?g ?D)) =
        map (\<lambda>r. (r, ?D))
          (take (if ?g ((listOfObservers ?d @ [0, 1, 2]) ! 1) = None then 1 else Suc 1)
             (listOfObservers ?d @ [0, 1, 2]))"
    by blast
  have g1: "?g ((listOfObservers ?d @ [0, 1, 2]) ! 1) \<noteq> None"
    by (simp add: new_Driver_def)
  from a b c g1 show ?thesis
    unfolding l D by (simp add: take_Suc_conv_app_nth)
qed

text \<open>
  Claim C1 as it is written fails where a handler raises: with an \<open>IDriverObserver\<close>
  registered first and a \<open>DriverManager\<close> second, \<open>Notify\<close> calls the first handler only.
\<close>
theorem Notify_skips_after_throw_counterexample:
  "listOfObservers (Add (Add (new_Driver ''Ted Lasso'') 0) 1) = [0, 1] \<and>
   calls (fst (Notify [0 \<mapsto> IDriverObserver, 1 \<mapsto> DriverManager ''Rebecca'']
                 (Add (Add (new_Driver ''Ted Lasso'') 0) 1))) =
     [(0, Add (Add (new_Driver ''Ted Lasso'') 0) 1)]"
  by (simp add: Notify_def Add_def new_Driver_def)

text \<open>
  Claim C2, as the code has it. For every subject and every string, \<open>ChangeStatus\<close> leaves
  the status equal to the string, whatever the string and whatever the listeners do; the
  rest of the call is one \<open>Notify\<close> on the updated subject, whose opening line is logged
  exactly once; the handlers are called along the collection from its first element on,
  and all of them, once each and in registration order, when none raises. When the call
  at some position is the first to fail, its error leaves \<open>ChangeStatus\<close> and the calls
  are exactly those of the positions up to this one, this one included when it has a
  handler that was called and raised, and none behind it.
\<close>
theorem ChangeStatus_sets_then_notifies_once:
  "status (fst (ChangeStatus h d s)) = s \<and>
   snd (ChangeStatus h d s) = Notify h (d\<lparr>status := s\<rparr>) \<and>
   length (filter (\<lambda>ev. ev = ConsoleLog ''UPDATE: Status has been changed.'')
             (fst (snd (ChangeStatus h d s)))) = 1 \<and>
   (\<exists>n\<le>length (listOfObservers d).
      calls (fst (snd (ChangeStatus h d s))) =
        map (\<lambda>r. (r, d\<lparr>status := s\<rparr>)) (take n (listOfObservers d))) \<and>
   ((\<forall>r\<in>set (listOfObservers d). \<exists>ls. call_Update h r (d\<lparr>status := s\<rparr>) = Inr ls) \<longrightarrow>
      snd (snd (ChangeStatus h d s)) = None \<and>
      calls (fst (snd (ChangeStatus h d s))) =
        map (\<lambda>r. (r, d\<lparr>status := s\<rparr>)) (listOfObservers d)) \<and>
   (\<forall>k<length (listOfObservers d). \<forall>e.
      (\<forall>j<k. \<exists>ls. call_Update h (listOfObservers d ! j) (d\<lparr>status := s\<rparr>) = Inr ls) \<and>
      call_Update h (listOfObservers d ! k) (d\<lparr>status := s\<rparr>) = Inl e \<longrightarrow>
      snd (snd (ChangeStatus h d s)) = Some e \<and>
      calls (fst (snd (ChangeStatus h d s))) =
        map (\<lambda>r. (r, d\<lparr>status := s\<rparr>))
          (take (if h (listOfObservers d ! k) = None then k else Suc k) (listOfObservers d)))"
proof -
  let ?D = "d\<lparr>status := s\<rparr>"
  have n: "snd (ChangeStatus h d s) = Notify h ?D" by (rule ChangeStatus_Notify)
  have 0: "status (fst (ChangeStatus h d s)) = s" by (simp add: ChangeStatus_driver)
  have 1: "length (filter (\<lambda>ev. ev = ConsoleLog ''UPDATE: Status has been changed.'')
             (fst (Notify h ?D))) = 1"
    by (rule Notify_one_header)
  have 2: "\<exists>n\<le>length (listOfObservers d).
      calls (fst (Notify h ?D)) = map (\<lambda>r. (r, ?D)) (take n (listOfObservers d))"
    using notify_loop_prefix[of "listOfObservers d" h ?D] by (simp add: Notify_calls)
  have 3: "(\<forall>r\<in>set (listOfObservers d). \<exists>ls. call_Update h r ?D = Inr ls) \<longrightarrow>
      snd (Notify h ?D) = None \<and>
      calls (fst (Notify h ?D)) = map (\<lambda>r. (r, ?D)) (listOfObservers d)"
    using notify_loop_all_return[of "listOfObservers d" h ?D]
    by (simp add: Notify_calls Notify_result)
  have 4: "\<forall>k<length (listOfObservers d). \<forall>e.
      (\<forall>j<k. \<exists>ls. call_Update h (listOfObservers d ! j) ?D = Inr ls) \<and>
      call_Update h (listOfObservers d ! k) ?D = Inl e \<longrightarrow>
      snd (Notify h ?D) = Some e \<and>
      calls (fst (Notify h ?D)) =
        map (\<lambda>r. (r, ?D))
          (take (if h (listOfObservers d ! k) = None then k else Suc k) (listOfObservers d))"
    using Notify_first_error[of ?D h] by simp
  from 0 n 1 2 3 4 show ?thesis unfolding n by (intro conjI)
qed

theorem ChangeStatus_sets_then_notifies_once_witness:
  "status (fst (ChangeStatus demo_heap (driver (fst main)) ''En Route'')) = ''En Route'' \<and>
   snd (snd (ChangeStatus demo_heap (driver (fst main)) ''En Route'')) = None \<and>
   calls (fst (snd (ChangeStatus demo_heap (driver (fst main)) ''En Route''))) =
     [(0, \<lparr>name = ''Ted Lasso'', status = ''En Route'', listOfObservers = [0, 1, 2]\<rparr>),
      (1, \<lparr>name = ''Ted Lasso'', status = ''En Route'', listOfObservers = [0, 1, 2]\<rparr>),
      (2, \<lparr>name = ''Ted Lasso'', status = ''En Route'', listOfObservers = [0, 1, 2]\<rparr>)] \<and>
   snd (snd (ChangeStatus [0 \<mapsto> DriverManager ''Rebecca'', 1 \<mapsto> DispatchTeam, 2 \<mapsto> IDriverObserver]
               (driver (fst main)) ''Delivered'')) =
     Some (Error ''Update method must be implemented'') \<and>
   calls (fst (snd (ChangeStatus
                      [0 \<mapsto> DriverManager ''Rebecca'', 1 \<mapsto> DispatchTeam, 2 \<mapsto> IDriverObserver]
                      (driver (fst main)) ''Delivered''))) =
     [(0, \<lparr>name = ''Ted Lasso'', status = ''Delivered'', listOfObservers = [0, 1, 2]\<rparr>),
      (1, \<lparr>name = ''Ted Lasso'', status = ''Delivered'', listOfObservers = [0, 1, 2]\<rparr>),
      (2, \<lparr>name = ''Ted Lasso'', status = ''Delivered'', listOfObservers = [0, 1, 2]\<rparr>)]"
proof -
  let ?d = "driver (fst main)"
  let ?g = "[0 \<mapsto> DriverManager ''Rebecca'', 1 \<mapsto> DispatchTeam, 2 \<mapsto> IDriverObserver]"
  let ?e = "Error ''Update method must be implemented''"
  let ?D = "?d\<lparr>status := ''Delivered''\<rparr>"
  have ok: "\<forall>r\<in>set (listOfObservers ?d).
      \<exists>ls. call_Update demo_heap r (?d\<lparr>status := ''En Route''\<rparr>) = Inr ls"
    by (simp add: main_driver call_Update_def demo_heap_def manager_def manager2_def dispatch_def)
  note t = ChangeStatus_sets_then_notifies_once[of demo_heap ?d "''En Route''"]
  from t have a: "status (fst (ChangeStatus demo_heap ?d ''En Route'')) = ''En Route''"
    by (rule conjunct1)
  from t ok have b: "snd (snd (ChangeStatus demo_heap ?d ''En Route'')) = None \<and>
      calls (fst (snd (ChangeStatus demo_heap ?d ''En Route''))) =
        map (\<lambda>r. (r, ?d\<lparr>status := ''En Route''\<rparr>)) (listOfObservers ?d)"
    by blast
  have k: "2 < length (listOfObservers ?d)"
    by (simp add: main_driver)
  have before: "\<forall>j<2. \<exists>ls. call_Update ?g (listOfObservers ?d ! j) ?D = Inr ls"
    by (simp add: main_driver call_Update_def less_Suc_eq numeral_2_eq_2)
  have fails: "call_Update ?g (listOfObservers ?d ! 2) ?D = Inl ?e"
    by (simp add: main_driver call_Update_def)
  note u = ChangeStatus_sets_then_notifies_once[of ?g ?d "''Delivered''"]
  from u have "\<forall>k<length (listOfObservers ?d). \<forall>e.
      (\<forall>j<k. \<exists>ls. call_Update ?g (listOfObservers ?d ! j) ?D = Inr ls) \<and>
      call_Update ?g (listOfObservers ?d ! k) ?D = Inl e \<longrightarrow>
      snd (snd (ChangeStatus ?g ?d ''Delivered'')) = Some e \<and>
      calls (fst (snd (ChangeStatus ?g ?d ''Delivered''))) =
        map (\<lambda>r. (r, ?D))
          (take (if ?g (listOfObservers ?d ! k) = None then k else Suc k) (listOfObservers ?d))"
    by blast
  with k before fails have c: "snd (snd (ChangeStatus ?g ?d ''Delivered'')) = Some ?e \<and>
      calls (fst (snd (ChangeStatus ?g ?d ''Delivered''))) =
        map (\<lambda>r. (r, ?D))
          (take (if ?g (listOfObservers ?d ! 2) = None then 2 else Suc 2) (listOfObservers ?d))"
    by blast
  have g2: "?g (listOfObservers ?d ! 2) \<noteq> None"
    by (simp add: main_driver)
  from a b c g2 show ?thesis
    by (simp add: main_driver)
qed

text \<open>
  Claim C2 as it is written fails where a handler raises: the status is set, and the
  \<open>DispatchTeam\<close> registered after an \<open>IDriverObserver\<close> is not notified.
\<close>
theorem ChangeStatus_skips_after_throw_counterexample:
  "listOfObservers (Add (Add (new_Driver ''Ted Lasso'') 0) 1) = [0, 1] \<and>
   status (fst (ChangeStatus [0 \<mapsto> IDriverObserver, 1 \<mapsto> DispatchTeam]
                  (Add (Add (new_Driver ''Ted Lasso'') 0) 1) ''En Route'')) = ''En Route'' \<and>
   calls (fst (snd (ChangeStatus [0 \<mapsto> IDriverObserver, 1 \<mapsto> DispatchTeam]
                      (Add (Add (new_Driver ''Ted Lasso'') 0) 1) ''En Route''))) =
     [(0, \<lparr>name = ''Ted Lasso'', status = ''En Route'', listOfObservers = [0, 1]\<rparr>)] \<and>
   snd (snd (ChangeStatus [0 \<mapsto> IDriverObserver, 1 \<mapsto> DispatchTeam]
                      (Add (Add (new_Driver ''Ted Lasso'') 0) 1) ''En Route'')) =
     Some (Error ''Update method must be implemented'')"
  by (simp add: ChangeStatus_def Notify_def Add_def new_Driver_def Let_def)



text \<open>
  Claim C4. \<open>Remove\<close> takes the first occurrence of the listener out of the collection and
  keeps every other element in its place and order, with name and status untouched; it
  returns the subject unchanged when the listener is not registered; and after removing
  a listener that was registered once, removing it again changes nothing.
\<close>
theorem Remove_first_match_only:
  "listOfObservers (Remove d x) = remove1 x (listOfObservers d) \<and>
   name (Remove d x) = name d \<and> status (Remove d x) = status d \<and>
   (\<forall>pre post. listOfObservers d = pre @ x # post \<and> x \<notin> set pre \<longrightarrow>
      listOfObservers (Remove d x) = pre @ post) \<and>
   (x \<notin> set (listOfObservers d) \<longrightarrow> Remove d x = d) \<and>
   (count_list (listOfObservers d) x = 1 \<longrightarrow> Remove (Remove d x) x = Remove d x)"
proof -
  have "\<forall>pre post. listOfObservers d = pre @ x # post \<and> x \<notin> set pre \<longrightarrow>
      listOfObservers (Remove d x) = pre @ post"
    by (blast intro: Remove_first)
  moreover have "x \<notin> set (listOfObservers d) \<longrightarrow> Remove d x = d"
    by (blast intro: Remove_absent)
  moreover have "count_list (listOfObservers d) x = 1 \<longrightarrow> Remove (Remove d x) x = Remove d x"
    by (blast intro: Remove_twice)
  ultimately show ?thesis
    using Remove_list[of d x] Remove_frame[of d x] by blast
qed

theorem Remove_first_match_only_witness:
  "listOfObservers (Remove \<lparr>name = ''Ted Lasso'', status = ''Available'',
                             listOfObservers = [0, 1, 2, 1]\<rparr> 1) = [0, 2, 1] \<and>
   Remove \<lparr>name = ''Ted Lasso'', status = ''Available'', listOfObservers = [0, 2]\<rparr> 1 =
     \<lparr>name = ''Ted Lasso'', status = ''Available'', listOfObservers = [0, 2]\<rparr> \<and>
   Remove (Remove \<lparr>name = ''Ted Lasso'', status = ''Available'',
                     listOfObservers = [0, 1, 2]\<rparr> 1) 1 =
     \<lparr>name = ''Ted Lasso'', status = ''Available'', listOfObservers = [0, 2]\<rparr>"
proof -
  let ?d = "\<lparr>name = ''Ted Lasso'', status = ''Available'', listOfObservers = [0, 1, 2, 1]\<rparr>"
  let ?e = "\<lparr>name = ''Ted Lasso'', status = ''Available'', listOfObservers = [0, 2]\<rparr>"
  let ?f = "\<lparr>name = ''Ted Lasso'', status = ''Available'', listOfObservers = [0, 1, 2]\<rparr>"
  have f: "Remove ?f 1 = ?e"
    by (simp add: Remove_def indexOf_def splice_def)
  from Remove_first_match_only[of ?d 1] Remove_first_match_only[of ?e 1]
    Remove_first_match_only[of ?f 1] f
  show ?thesis by simp
qed

text \<open>
  Claim C5. When the program waits for the first answer, the answer lowers to \<open>yes\<close> or
  \<open>y\<close>, and the next line is not one of the enumerated statuses other than the current
  one (the current status itself included), the program logs the invalid-status line,
  shows the status and asks the first question again; the whole program state, driver
  included, is what it was, and no handler has been called.
\<close>
theorem invalid_status_reprompts:
  assumes "mode p = AwaitingContinue"
    and "toLowerCase answer = ''yes'' \<or> toLowerCase answer = ''y''"
    and "newStatus \<notin> set (filter (\<lambda>s. s \<noteq> status (driver p)) statuses)"
  shows "run h p [answer, newStatus] =
      (p, [ConsoleLog (newline @ ''Question: What is the new status? ('' @
                       statusList (filter (\<lambda>s. s \<noteq> status (driver p)) statuses) @ '')''),
           Question ''Enter new status: '',
           ConsoleLog (''Invalid status. Please try again.'' @ newline),
           ConsoleLog (''------ Current driver status: '' @ status (driver p) @ '' ------ '' @ newline),
           Question ''Question: Has the driver status changed? (yes/no): '']) \<and>
    calls (snd (run h p [answer, newStatus])) = []"
proof -
  let ?av = "filter (\<lambda>s. s \<noteq> status (driver p)) statuses"
  have 1: "step h p answer =
      (p\<lparr>mode := AwaitingNewStatus ?av\<rparr>,
       [ConsoleLog (newline @ ''Question: What is the new status? ('' @ statusList ?av @ '')''),
        Question ''Enter new status: ''])"
    using assms(1,2) by (simp add: step_def onAnswer_def Let_def)
  have 2: "step h (p\<lparr>mode := AwaitingNewStatus ?av\<rparr>) newStatus =
      (p, [ConsoleLog (''Invalid status. Please try again.'' @ newline),
           ConsoleLog (''------ Current driver status: '' @ status (driver p) @ '' ------ '' @ newline),
           Question ''Question: Has the driver status changed? (yes/no): ''])"
    using assms(1) onNewStatus_invalid[OF assms(3), of h "p\<lparr>mode := AwaitingNewStatus ?av\<rparr>"]
    by (simp add: step_def)
  have 3: "run h p [answer, newStatus] =
      (p, [ConsoleLog (newline @ ''Question: What is the new status? ('' @ statusList ?av @ '')''),
           Question ''Enter new status: '',
           ConsoleLog (''Invalid status. Please try again.'' @ newline),
           ConsoleLog (''------ Current driver status: '' @ status (driver p) @ '' ------ '' @ newline),
           Question ''Question: Has the driver status changed? (yes/no): ''])"
    by (simp add: 1 2)
  show ?thesis unfolding 3 by simp
qed

theorem invalid_status_reprompts_witness:
  "fst (run demo_heap (fst main) [''YES'', ''Available'']) = fst main \<and>
   fst (run demo_heap (fst main) [''YES'', ''InvalidStatus'']) = fst main \<and>
   calls (snd (run demo_heap (fst main) [''YES'', ''Available''])) = [] \<and>
   calls (snd (run demo_heap (fst main) [''YES'', ''InvalidStatus''])) = []"
proof -
  have a: "''Available'' \<notin> set (filter (\<lambda>s. s \<noteq> status (driver (fst main))) statuses)"
    by (simp add: main_driver)
  have b: "''InvalidStatus'' \<notin> set (filter (\<lambda>s. s \<noteq> status (driver (fst main))) statuses)"
    by (simp add: main_driver statuses_def)
  have y: "toLowerCase ''YES'' = ''yes'' \<or> toLowerCase ''YES'' = ''y''"
    by (simp add: lower_YES)
  from invalid_status_reprompts[OF main_mode y a, of demo_heap]
    invalid_status_reprompts[OF main_mode y b, of demo_heap]
  show ?thesis by simp
qed

text \<open>
  Claim C6, as the code has it. \<open>Add\<close> puts the listener at the end of the collection,
  whether or not it is already there, and touches nothing else; registered twice, the
  listener stands twice at the end, and a following \<open>Notify\<close> in which no handler raises
  calls its handler twice more than it was registered before.
\<close>
theorem Add_appends_without_check:
  "listOfObservers (Add d x) = listOfObservers d @ [x] \<and>
   name (Add d x) = name d \<and> status (Add d x) = status d \<and>
   listOfObservers (Add (Add d x) x) = listOfObservers d @ [x, x] \<and>
   ((\<forall>r\<in>set (listOfObservers d @ [x]). \<exists>ls. call_Update h r (Add (Add d x) x) = Inr ls) \<longrightarrow>
      snd (Notify h (Add (Add d x) x)) = None \<and>
      count_list (map fst (calls (fst (Notify h (Add (Add d x) x))))) x =
        count_list (listOfObservers d) x + 2)"
proof -
  let ?d = "Add (Add d x) x"
  have l: "listOfObservers ?d = listOfObservers d @ [x, x]"
    by (simp add: Add_def)
  have "snd (Notify h ?d) = None \<and>
      count_list (map fst (calls (fst (Notify h ?d)))) x = count_list (listOfObservers d) x + 2"
    if "\<forall>r\<in>set (listOfObservers d @ [x]). \<exists>ls. call_Update h r ?d = Inr ls"
  proof -
    from that have "\<forall>r\<in>set (listOfObservers ?d). \<exists>ls. call_Update h r ?d = Inr ls"
      by (simp add: l)
    from notify_loop_all_return[OF this]
    have "snd (Notify h ?d) = None"
      and "map fst (calls (fst (Notify h ?d))) = listOfObservers ?d"
      by (simp_all add: Notify_calls Notify_result comp_def)
    then show ?thesis by (simp add: l)
  qed
  then show ?thesis by (simp add: l) (simp add: Add_def)
qed

theorem Add_appends_without_check_witness:
  "listOfObservers (Add (Add (new_Driver ''Ted Lasso'') 2) 2) = [2, 2] \<and>
   snd (Notify demo_heap (Add (Add (new_Driver ''Ted Lasso'') 2) 2)) = None \<and>
   count_list (map fst (calls (fst (Notify demo_heap (Add (Add (new_Driver ''Ted Lasso'') 2) 2))))) 2
     = 2"
proof -
  let ?d = "new_Driver ''Ted Lasso''"
  have ok: "\<forall>r\<in>set (listOfObservers ?d @ [2]).
      \<exists>ls. call_Update demo_heap r (Add (Add ?d 2) 2) = Inr ls"
    by (simp add: new_Driver_def call_Update_def demo_heap_def manager_def manager2_def
        dispatch_def)
  note t = Add_appends_without_check[of ?d 2 demo_heap]
  from t ok have "snd (Notify demo_heap (Add (Add ?d 2) 2)) = None \<and>
      count_list (map fst (calls (fst (Notify demo_heap (Add (Add ?d 2) 2))))) 2 =
        count_list (listOfObservers ?d) 2 + 2"
    by blast
  moreover from t have "listOfObservers (Add (Add ?d 2) 2) = listOfObservers ?d @ [2, 2]"
    by blast
  ultimately show ?thesis by (simp add: new_Driver_def)
qed

text \<open>
  Claim C6 as it is written fails for a listener whose handler raises: registered twice
  on a new driver, an \<open>IDriverObserver\<close> is called once by the following \<open>Notify\<close>.
\<close>
theorem Add_twice_thrower_called_once_counterexample:
  "listOfObservers (Add (Add (new_Driver ''Ted Lasso'') 0) 0) = [0, 0] \<and>
   calls (fst (Notify [0 \<mapsto> IDriverObserver] (Add (Add (new_Driver ''Ted Lasso'') 0) 0))) =
     [(0, Add (Add (new_Driver ''Ted Lasso'') 0) 0)] \<and>
   snd (Notify [0 \<mapsto> IDriverObserver] (Add (Add (new_Driver ''Ted Lasso'') 0) 0)) =
     Some (Error ''Update method must be implemented'')"
  by (simp add: Notify_def Add_def new_Driver_def)

text \<open>
  Claim C7. When the handler of the listener at position \<open>k\<close> of the collection raises,
  \<open>Notify\<close> ends with an error and has called the handlers of at most the positions up to
  \<open>k\<close>, none behind it; when nothing fails before position \<open>k\<close>, the error that leaves
  \<open>Notify\<close> is the one this handler raised and the calls are exactly those of the positions
  \<open>0\<close> to \<open>k\<close>.
\<close>
theorem Notify_failing_listener_not_isolated:
  assumes "k < length (listOfObservers d)"
    and "h (listOfObservers d ! k) = Some ob"
    and "Update ob d = Inl e"
  shows "(\<exists>e' n. snd (Notify h d) = Some e' \<and> n \<le> Suc k \<and>
            calls (fst (Notify h d)) = map (\<lambda>r. (r, d)) (take n (listOfObservers d))) \<and>
         ((\<forall>j<k. \<exists>ls. call_Update h (listOfObservers d ! j) d = Inr ls) \<longrightarrow>
            snd (Notify h d) = Some e \<and>
            calls (fst (Notify h d)) = map (\<lambda>r. (r, d)) (take (Suc k) (listOfObservers d)))"
  using assms notify_loop_some_failure[of k "listOfObservers d" h ob d e]
    notify_loop_first_failure[of k "listOfObservers d" h ob d e]
  by (simp add: Notify_calls Notify_result)

theorem Notify_failing_listener_not_isolated_witness:
  "snd (Notify [0 \<mapsto> DispatchTeam, 1 \<mapsto> IDriverObserver, 2 \<mapsto> DriverManager ''Rebecca'']
          \<lparr>name = ''Ted Lasso'', status = ''Stopped'', listOfObservers = [0, 1, 2]\<rparr>) =
     Some (Error ''Update method must be implemented'') \<and>
   calls (fst (Notify [0 \<mapsto> DispatchTeam, 1 \<mapsto> IDriverObserver, 2 \<mapsto> DriverManager ''Rebecca'']
          \<lparr>name = ''Ted Lasso'', status = ''Stopped'', listOfObservers = [0, 1, 2]\<rparr>)) =
     [(0, \<lparr>name = ''Ted Lasso'', status = ''Stopped'', listOfObservers = [0, 1, 2]\<rparr>),
      (1, \<lparr>name = ''Ted Lasso'', status = ''Stopped'', listOfObservers = [0, 1, 2]\<rparr>)]"
proof -
  let ?h = "[0 \<mapsto> DispatchTeam, 1 \<mapsto> IDriverObserver, 2 \<mapsto> DriverManager ''Rebecca'']"
  let ?d = "\<lparr>name = ''Ted Lasso'', status = ''Stopped'', listOfObservers = [0, 1, 2]\<rparr>"
  have k: "1 < length (listOfObservers ?d)" by simp
  have ob: "?h (listOfObservers ?d ! 1) = Some IDriverObserver" by simp
  have e: "Update IDriverObserver ?d = Inl (Error ''Update method must be implemented'')" by simp
  have before: "\<forall>j<1. \<exists>ls. call_Update ?h (listOfObservers ?d ! j) ?d = Inr ls"
    by (simp add: call_Update_def)
  from Notify_failing_listener_not_isolated[of 1 ?d ?h IDriverObserver
      "Error ''Update method must be implemented''"] k ob e before
  have "snd (Notify ?h ?d) = Some (Error ''Update method must be implemented'') \<and>
      calls (fst (Notify ?h ?d)) = map (\<lambda>r. (r, ?d)) (take (Suc 1) (listOfObservers ?d))"
    by blast
  then show ?thesis by (simp add: take_Suc_conv_app_nth)
qed

text \<open>
  Claim C8. When the program waits for the first answer and the answer lowers to \<open>no\<close> or
  \<open>n\<close>, it logs the goodbye line and closes the interface; whatever input follows, nothing
  more is logged or asked and the driver stays as it was.
\<close>
theorem no_answer_closes:
  assumes "mode p = AwaitingContinue"
    and "toLowerCase answer = ''no'' \<or> toLowerCase answer = ''n''"
  shows "run h p (answer # rest) =
      (p\<lparr>mode := Closed\<rparr>,
       [ConsoleLog (newline @ ''Thank you for confirming this driver's status. Goodbye. '' @ newline),
        RlClose])"
proof -
  have ny: "\<not> (toLowerCase answer = ''yes'' \<or> toLowerCase answer = ''y'')"
    using assms(2) by auto
  have 1: "step h p answer =
      (p\<lparr>mode := Closed\<rparr>,
       [ConsoleLog (newline @ ''Thank you for confirming this driver's status. Goodbye. '' @ newline),
        RlClose])"
    using assms ny by (simp add: step_def onAnswer_def)
  have 2: "run h (p\<lparr>mode := Closed\<rparr>) rest = (p\<lparr>mode := Closed\<rparr>, [])"
    by (rule run_Closed) simp
  show ?thesis by (simp add: 1 2)
qed

theorem no_answer_closes_witness:
  "run demo_heap (fst main) [''no'', ''yes'', ''Stopped''] =
     ((fst main)\<lparr>mode := Closed\<rparr>,
      [ConsoleLog (newline @ ''Thank you for confirming this driver's status. Goodbye. '' @ newline),
       RlClose]) \<and>
   fst (run demo_heap (fst main) [''N'', ''y'', ''Delivered'']) = (fst main)\<lparr>mode := Closed\<rparr>"
proof -
  have no: "toLowerCase ''no'' = ''no'' \<or> toLowerCase ''no'' = ''n''"
    by (simp add: lower_no)
  have n: "toLowerCase ''N'' = ''no'' \<or> toLowerCase ''N'' = ''n''"
    by (simp add: lower_N)
  from no_answer_closes[OF main_mode no, of demo_heap "[''yes'', ''Stopped'']"]
    no_answer_closes[OF main_mode n, of demo_heap "[''y'', ''Delivered'']"]
  show ?thesis by simp
qed

text \<open>
  Claim C9. \<open>ChangeStatus\<close> writes the status field only: the name and the collection of
  observers are after the call what they were before it, also when a handler raises.
\<close>
theorem ChangeStatus_frame:
  "name (fst (ChangeStatus h d s)) = name d \<and>
   listOfObservers (fst (ChangeStatus h d s)) = listOfObservers d \<and>
   fst (ChangeStatus h d s) = d\<lparr>status := s\<rparr>"
  by (simp add: ChangeStatus_driver)

theorem ChangeStatus_frame_witness:
  "name (fst (ChangeStatus demo_heap (driver (fst main)) ''Delivered'')) = ''Ted Lasso'' \<and>
   listOfObservers (fst (ChangeStatus demo_heap (driver (fst main)) ''Delivered'')) = [0, 1, 2]"
  using ChangeStatus_frame[of demo_heap "driver (fst main)" "''Delivered''"]
  by (simp add: main_driver)

text \<open>
  Claim C10. The first answer is matched after lowering its letters: when it lowers to
  \<open>yes\<close> or \<open>y\<close> the program asks for the new status; when it lowers to \<open>no\<close> or \<open>n\<close> it
  says goodbye and closes; every other answer gets the line \<open>Please answer yes or no.\<close>
  and the first question again, with the program state unchanged. Which answers lower
  to each word is settled by \<open>toLowerCase_yes\<close>, \<open>toLowerCase_y\<close>, \<open>toLowerCase_no\<close> and
  \<open>toLowerCase_n\<close> above.
\<close>
theorem answer_matching:
  assumes "mode p = AwaitingContinue"
  shows "(toLowerCase answer = ''yes'' \<or> toLowerCase answer = ''y'' \<longrightarrow>
            step h p answer =
              (p\<lparr>mode := AwaitingNewStatus (filter (\<lambda>s. s \<noteq> status (driver p)) statuses)\<rparr>,
               [ConsoleLog (newline @ ''Question: What is the new status? ('' @
                  statusList (filter (\<lambda>s. s \<noteq> status (driver p)) statuses) @ '')''),
                Question ''Enter new status: ''])) \<and>
         (toLowerCase answer = ''no'' \<or> toLowerCase answer = ''n'' \<longrightarrow>
            step h p answer =
              (p\<lparr>mode := Closed\<rparr>,
               [ConsoleLog (newline @ ''Thank you for confirming this driver's status. Goodbye. ''
                            @ newline),
                RlClose])) \<and>
         (toLowerCase answer \<notin> {''yes'', ''y'', ''no'', ''n''} \<longrightarrow>
            step h p answer =
              (p, [ConsoleLog (''Please answer yes or no.'' @ newline),
                   ConsoleLog (''------ Current driver status: '' @ status (driver p) @
                               '' ------ '' @ newline),
                   Question ''Question: Has the driver status changed? (yes/no): '']))"
  using assms by (auto simp: step_def onAnswer_def askForStatusChange_def Let_def)

theorem answer_matching_witness:
  "mode (fst (step demo_heap (fst main) ''YES'')) =
     AwaitingNewStatus [''En Route'', ''Stopped'', ''Delivered''] \<and>
   mode (fst (step demo_heap (fst main) ''No'')) = Closed \<and>
   step demo_heap (fst main) ''Maybe'' =
     (fst main, [ConsoleLog (''Please answer yes or no.'' @ newline),
                 ConsoleLog (''------ Current driver status: Available ------ '' @ newline),
                 Question ''Question: Has the driver status changed? (yes/no): ''])"
  using answer_matching[OF main_mode, of "''YES''" demo_heap]
    answer_matching[OF main_mode, of "''No''" demo_heap]
    answer_matching[OF main_mode, of "''Maybe''" demo_heap]
  by (simp add: lower_YES lower_No lower_maybe main_driver statuses_def)

end
